theory Spec2Isabelle
  imports Main "HOL-Library.Word" "HOL-Library.AList" "HOL-Library.Extended_Nat"
begin

section \<open>Telekinesis client core: Connection, Session, Channel\<close>

text \<open>
  A shallow embedding of \<^verbatim>\<open>telekinesis/client.py\<close>. Python \<^verbatim>\<open>bytes\<close> are lists of
  8-bit words, Python integers are \<open>int\<close> or \<open>nat\<close>, dictionaries that keep insertion
  order are association lists with distinct keys, exceptions are values of \<open>py_error\<close>.
  The wall clock (\<^verbatim>\<open>time.time()\<close>) is an explicit argument of every function that reads it.
\<close>

type_synonym byte = "8 word"
type_synonym bytes = "byte list"

datatype py_error =
    KeyError
  | IndexError
  | TypeError
  | OverflowError
  | RuntimeError
  | ZlibError
  | PayloadTooLarge
  | DifferentEncoding
  | MaxSendRetries
  | ZeroDivisionError
  | DecryptError

subsection \<open>Bytes\<close>

text \<open>
  \<^verbatim>\<open>int.to_bytes(length, 'big')\<close> raises \<^verbatim>\<open>OverflowError\<close> for a negative integer and for one
  that does not fit \<open>length\<close> bytes; \<^verbatim>\<open>int.from_bytes(bs, 'big')\<close> reads any number of
  bytes; \<^verbatim>\<open>xs[a:b]\<close> with \<open>0 \<le> a\<close> and \<open>0 \<le> b\<close> never raises.
\<close>

fun be_bytes :: "nat \<Rightarrow> nat \<Rightarrow> bytes" where
  "be_bytes 0 v = []"
| "be_bytes (Suc k) v = be_bytes k (v div 256) @ [of_nat (v mod 256)]"

definition to_bytes :: "nat \<Rightarrow> int \<Rightarrow> py_error + bytes" where
  "to_bytes len v =
     (if v < 0 \<or> 256 ^ len \<le> v then Inl OverflowError else Inr (be_bytes len (nat v)))"

definition from_bytes :: "bytes \<Rightarrow> nat" where
  "from_bytes bs = foldl (\<lambda>acc b. acc * 256 + unat b) 0 bs"

definition slice :: "'a list \<Rightarrow> nat \<Rightarrow> nat \<Rightarrow> 'a list" where
  "slice xs a b = take (b - a) (drop a xs)"

subsection \<open>Session.check_no_repeat\<close>

text \<open>
  \<^verbatim>\<open>self.seen_messages = (set(), set(), 0)\<close>: a tuple of two mutable sets and an integer.
  The sets are mutated in place; the tuple itself, and so its third component, is never
  assigned after \<^verbatim>\<open>__init__\<close>.
\<close>

record 'a seen_messages =
  bucket0 :: "'a set"
  bucket1 :: "'a set"
  stored_lead :: int

definition seen_init :: "'a seen_messages" where
  "seen_init = \<lparr> bucket0 = {}, bucket1 = {}, stored_lead = 0 \<rparr>"

text \<open>\<^verbatim>\<open>self.seen_messages[lead].clear()\<close> for \<open>lead\<close> in \<open>{0, 1}\<close>.\<close>

definition clear_bucket :: "'a seen_messages \<Rightarrow> int \<Rightarrow> 'a seen_messages" where
  "clear_bucket s lead = (if lead = 0 then s\<lparr> bucket0 := {} \<rparr> else s\<lparr> bucket1 := {} \<rparr>)"

text \<open>\<^verbatim>\<open>self.seen_messages[lead].add(signature)\<close>.\<close>

definition add_bucket :: "'a seen_messages \<Rightarrow> int \<Rightarrow> 'a \<Rightarrow> 'a seen_messages" where
  "add_bucket s lead x =
     (if lead = 0 then s\<lparr> bucket0 := insert x (bucket0 s) \<rparr>
      else s\<lparr> bucket1 := insert x (bucket1 s) \<rparr>)"

text \<open>
  \<^verbatim>\<open>check_no_repeat(self, signature, timestamp)\<close> with \<open>now = int(time.time())\<close>. The result
  is the returned boolean and the session's \<open>seen_messages\<close> afterwards.
\<close>

definition check_no_repeat ::
  "int \<Rightarrow> 'a seen_messages \<Rightarrow> 'a \<Rightarrow> int \<Rightarrow> bool \<times> 'a seen_messages" where
  "check_no_repeat now s signature timestamp =
     (let lead = now div 60 mod 2;
          s1 = (if stored_lead s \<noteq> lead then clear_bucket s lead else s)
      in if now - 60 \<le> timestamp \<and> timestamp \<le> now
         then (if signature \<notin> bucket0 s1 \<union> bucket1 s1
               then (True, add_bucket s1 lead signature)
               else (False, s1))
         else (False, s1))"

subsection \<open>Connection.awaiting_ack, Connection.clear, Connection.ack\<close>

text \<open>
  A route dictionary (\<^verbatim>\<open>Route.to_dict\<close>) and the content of a header action. Only the
  content of a \<^verbatim>\<open>'send'\<close> action is inspected by the client: a dictionary with the two
  routes.
\<close>

record route =
  brokers :: "string list"
  session :: string
  channel :: string
  tokens :: "bytes list"

datatype content = RouteDicts (c_source: route) (c_destination: route) | OtherContent

type_synonym header = "(string \<times> content) list"

text \<open>
  An entry of \<^verbatim>\<open>awaiting_ack\<close> is the tuple \<^verbatim>\<open>(header, bundle_id, lock)\<close>. The lock is an
  \<^verbatim>\<open>asyncio.Event\<close> shared with the sending coroutine, so it is a reference into the
  connection's store of events; \<^verbatim>\<open>awaiting_ack\<close> is an \<^verbatim>\<open>OrderedDict\<close>.
\<close>

type_synonym entry = "header \<times> bytes option \<times> nat"

record connection =
  awaiting_ack :: "(bytes \<times> entry) list"
  events :: "nat \<Rightarrow> bool"

text \<open>The Python values an entry holds, and \<^verbatim>\<open>==\<close> between them.\<close>

datatype pyval = PyHeader header | PyBytes bytes | PyNone | PyEvent nat

fun item0 :: "entry \<Rightarrow> pyval" where
  "item0 (h, b, l) = PyHeader h"

fun item1 :: "entry \<Rightarrow> pyval" where
  "item1 (h, b, l) = (case b of None \<Rightarrow> PyNone | Some x \<Rightarrow> PyBytes x)"

fun item2 :: "entry \<Rightarrow> pyval" where
  "item2 (h, b, l) = PyEvent l"

fun entry_lock :: "entry \<Rightarrow> nat" where
  "entry_lock (h, b, l) = l"

text \<open>
  \<^verbatim>\<open>asyncio.Event\<close> does not define \<^verbatim>\<open>__eq__\<close>: two events are equal when they are the
  same object, and an event never equals a \<^verbatim>\<open>bytes\<close> value or \<^verbatim>\<open>None\<close>.
\<close>

fun py_eq :: "pyval \<Rightarrow> pyval \<Rightarrow> bool" where
  "py_eq (PyHeader a) (PyHeader b) = (a = b)"
| "py_eq (PyBytes a) (PyBytes b) = (a = b)"
| "py_eq PyNone PyNone = True"
| "py_eq (PyEvent a) (PyEvent b) = (a = b)"
| "py_eq _ _ = False"

text \<open>
  \<^verbatim>\<open>for k, v in self.awaiting_ack.items(): if v[2] == bundle_id: self.awaiting_ack.pop(k)\<close>.
  The first argument is what the iterator still has to yield. After a \<^verbatim>\<open>pop\<close> the
  iterator of an \<^verbatim>\<open>OrderedDict\<close> raises \<^verbatim>\<open>RuntimeError\<close> at its next step unless the popped
  item was the last one.
\<close>

fun clear_loop ::
  "(bytes \<times> entry) list \<Rightarrow> bytes \<Rightarrow> (bytes \<times> entry) list \<Rightarrow> py_error + (bytes \<times> entry) list" where
  "clear_loop [] bundle_id aw = Inr aw"
| "clear_loop ((k, v) # rest) bundle_id aw =
     (if py_eq (item2 v) (PyBytes bundle_id)
      then (if rest = [] then Inr (AList.delete k aw) else Inl RuntimeError)
      else clear_loop rest bundle_id aw)"

text \<open>\<^verbatim>\<open>Connection.clear(bundle_id)\<close>; \<^verbatim>\<open>if bundle_id:\<close> is false for \<^verbatim>\<open>None\<close> and for \<^verbatim>\<open>b''\<close>.\<close>

definition clear :: "bytes option \<Rightarrow> connection \<Rightarrow> py_error + connection" where
  "clear bundle_id c =
     (case bundle_id of
        None \<Rightarrow> Inr c
      | Some b \<Rightarrow>
          if b = [] then Inr c
          else (case clear_loop (awaiting_ack c) b (awaiting_ack c) of
                  Inl e \<Rightarrow> Inl e
                | Inr aw \<Rightarrow> Inr (c\<lparr> awaiting_ack := aw \<rparr>)))"

text \<open>
  \<^verbatim>\<open>Connection.ack(source_id, message_id)\<close>. The loop runs over the header recorded for
  \<^verbatim>\<open>message_id\<close> (the empty header when there is none). \<^verbatim>\<open>self.awaiting_ack.pop\<close>
  raises \<^verbatim>\<open>KeyError\<close> when the key is gone, and subscripting a content that is not a
  dictionary of routes raises \<^verbatim>\<open>TypeError\<close>.
\<close>

fun ack_loop :: "header \<Rightarrow> string \<Rightarrow> bytes \<Rightarrow> connection \<Rightarrow> py_error + connection" where
  "ack_loop [] source_id message_id c = Inr c"
| "ack_loop ((action, cont) # rest) source_id message_id c =
     (if action = ''send''
      then (case cont of
              OtherContent \<Rightarrow> Inl TypeError
            | RouteDicts src dst \<Rightarrow>
                if session dst = source_id
                then (case map_of (awaiting_ack c) message_id of
                        None \<Rightarrow> Inl KeyError
                      | Some t \<Rightarrow>
                          let aw = AList.delete message_id (awaiting_ack c);
                              ev = (events c)(entry_lock t := True);
                              ev' = (case aw of [] \<Rightarrow> ev | (k, v) # _ \<Rightarrow> ev(entry_lock v := True))
                          in ack_loop rest source_id message_id
                               (c\<lparr> awaiting_ack := aw, events := ev' \<rparr>))
                else ack_loop rest source_id message_id c)
      else ack_loop rest source_id message_id c)"

definition ack :: "string \<Rightarrow> bytes \<Rightarrow> connection \<Rightarrow> py_error + connection" where
  "ack source_id message_id c =
     ack_loop (case map_of (awaiting_ack c) message_id of None \<Rightarrow> [] | Some t \<Rightarrow> fst t)
       source_id message_id c"

text \<open>The contents of the \<^verbatim>\<open>'send'\<close> actions of a header, in order.\<close>

definition send_contents :: "header \<Rightarrow> content list" where
  "send_contents h = map snd (filter (\<lambda>(action, cont). action = ''send'') h)"

text \<open>A connection with two messages awaiting their acks, both sent from A to B.\<close>

definition route_A :: route where
  "route_A = \<lparr> brokers = [], session = ''A'', channel = ''chA'', tokens = [] \<rparr>"

definition route_B :: route where
  "route_B = \<lparr> brokers = [], session = ''B'', channel = ''chB'', tokens = [] \<rparr>"

definition header_A_to_B :: header where
  "header_A_to_B = [(''listen'', OtherContent), (''send'', RouteDicts route_A route_B)]"

definition conn_two_pending :: connection where
  "conn_two_pending =
     \<lparr> awaiting_ack = [([1], (header_A_to_B, Some [7, 7, 7, 7], 0)), ([2], (header_A_to_B, Some [7, 7, 7, 7], 1))],
       events = (\<lambda>_. False)(0 := True) \<rparr>"

subsection \<open>Tokens, Session.revoke_token, Channel.validate_token_chain\<close>

text \<open>
  Modelled from the spec: the \<^verbatim>\<open>Token\<close> class of \<^verbatim>\<open>telekinesis/cryptography.py\<close>, which
  is not among the sources. The spec's data model gives a token an issuer, a set of
  brokers, a receiver, an asset (a channel id or the signature of the token it extends),
  a kind, an optional unsigned \<open>max_depth\<close> and a signature. \<^verbatim>\<open>Token.decode\<close> either
  returns the token or raises \<^verbatim>\<open>InvalidSignature\<close>; it is a parameter \<open>dec\<close> of the
  validation, with \<open>None\<close> for the exception.
\<close>

datatype asset_id = ChannelAsset string | TokenAsset bytes

record token =
  issuer :: string
  token_brokers :: "string list"
  receiver :: string
  asset :: asset_id
  token_type :: string
  max_depth :: "nat option"
  signature :: bytes

text \<open>
  What validation reads of a channel and its session: \<^verbatim>\<open>self.is_public\<close>,
  \<^verbatim>\<open>self.session.session_key.public_serial()\<close>, \<^verbatim>\<open>self.channel_key.public_serial()\<close> and
  \<^verbatim>\<open>self.session.issued_tokens\<close>, a dictionary from a token's signature to the token and
  the token it extends.
\<close>

type_synonym issued = "bytes \<rightharpoonup> (token \<times> token option)"

record channel =
  is_public :: bool
  owner_id :: string
  channel_id :: string
  issued_tokens :: issued

text \<open>
  \<^verbatim>\<open>Session.revoke_token(token_id)\<close>: \<^verbatim>\<open>self.issued_tokens.pop(token_id)\<close> raises \<^verbatim>\<open>KeyError\<close>
  for a signature that is not there; the returned header is \<^verbatim>\<open>('token', ('revoke', token_id))\<close>.
\<close>

definition revoke_token :: "bytes \<Rightarrow> issued \<Rightarrow> py_error + (issued \<times> string \<times> string \<times> bytes)" where
  "revoke_token token_id it =
     (case it token_id of
        None \<Rightarrow> Inl KeyError
      | Some _ \<Rightarrow> Inr (it(token_id := None), ''token'', ''revoke'', token_id))"

text \<open>Python's truth value of an optional integer: \<^verbatim>\<open>None\<close> and \<^verbatim>\<open>0\<close> are false.\<close>

fun truthy :: "nat option \<Rightarrow> bool" where
  "truthy None = False"
| "truthy (Some n) = (n \<noteq> 0)"

text \<open>
  The loop of \<^verbatim>\<open>validate_token_chain\<close>, \<^verbatim>\<open>for depth, token_string in enumerate(tokens)\<close>,
  with the loop variables \<open>asset\<close>, \<open>last_receiver\<close>, \<open>max_depth\<close> and \<open>depth\<close> as arguments.
  Falling out of the loop returns \<^verbatim>\<open>False\<close>.
\<close>

fun validate_loop ::
  "(bytes \<Rightarrow> token option) \<Rightarrow> string \<Rightarrow> issued \<Rightarrow> string \<Rightarrow>
   asset_id \<Rightarrow> string \<Rightarrow> nat option \<Rightarrow> nat \<Rightarrow> bytes list \<Rightarrow> bool" where
  "validate_loop dec owner it source_id ast last_receiver md depth [] = False"
| "validate_loop dec owner it source_id ast last_receiver md depth (token_string # rest) =
     (case dec token_string of
        None \<Rightarrow> False
      | Some t \<Rightarrow>
          if asset t = ast \<and> issuer t = last_receiver
          then (if issuer t = owner \<and> it (signature t) = None then False
                else (let md' = (if truthy (max_depth t)
                                 then (if \<not> truthy md \<or> the (max_depth t) + depth < the md
                                       then Some (the (max_depth t) + depth) else md)
                                 else md)
                      in if \<not> truthy md' \<or> depth \<le> the md'
                         then (if receiver t = source_id then True
                               else validate_loop dec owner it source_id
                                      (TokenAsset (signature t)) (receiver t) md' (Suc depth) rest)
                         else False))
          else False)"

definition validate_token_chain ::
  "(bytes \<Rightarrow> token option) \<Rightarrow> channel \<Rightarrow> string \<Rightarrow> bytes list \<Rightarrow> bool" where
  "validate_token_chain dec ch source_id tks =
     (if is_public ch \<or> source_id = owner_id ch then True
      else if tks = [] then False
      else validate_loop dec (owner_id ch) (issued_tokens ch) source_id
             (ChannelAsset (channel_id ch)) (owner_id ch) None 0 tks)"

text \<open>
  The acceptance condition in the words of the spec (section 4.8), for comparison with the
  code: starting from \<open>asset = channel_id\<close>, \<open>last_receiver = owner\<close>, \<open>max_depth = \<infinity>\<close>, the
  token at index \<open>d\<close> decodes, has the current asset and issuer, is in the owner's registry
  when issued by the owner, lowers the bound to \<open>min max_depth (d + t.max_depth)\<close> when it
  declares a \<open>max_depth\<close>, has \<open>d \<le> max_depth\<close>, and either its receiver is \<open>source_id\<close> or
  the rest of the chain is accepted from \<open>last_receiver = t.receiver\<close>, \<open>asset = t.signature\<close>.
\<close>

fun spec_chain_accepts ::
  "(bytes \<Rightarrow> token option) \<Rightarrow> string \<Rightarrow> issued \<Rightarrow> string \<Rightarrow>
   asset_id \<Rightarrow> string \<Rightarrow> enat \<Rightarrow> nat \<Rightarrow> bytes list \<Rightarrow> bool" where
  "spec_chain_accepts dec owner it source_id ast last_receiver md d [] = False"
| "spec_chain_accepts dec owner it source_id ast last_receiver md d (token_string # rest) =
     (case dec token_string of
        None \<Rightarrow> False
      | Some t \<Rightarrow>
          asset t = ast \<and> issuer t = last_receiver \<and>
          (issuer t = owner \<longrightarrow> it (signature t) \<noteq> None) \<and>
          (let md' = (case max_depth t of None \<Rightarrow> md | Some m \<Rightarrow> min md (enat (d + m)))
           in enat d \<le> md' \<and>
              (receiver t = source_id \<or>
               spec_chain_accepts dec owner it source_id
                 (TokenAsset (signature t)) (receiver t) md' (Suc d) rest)))"

definition spec_authorizes ::
  "(bytes \<Rightarrow> token option) \<Rightarrow> channel \<Rightarrow> string \<Rightarrow> bytes list \<Rightarrow> bool" where
  "spec_authorizes dec ch source_id tks =
     (is_public ch \<or> source_id = owner_id ch \<or>
      (tks \<noteq> [] \<and>
       spec_chain_accepts dec (owner_id ch) (issued_tokens ch) source_id
         (ChannelAsset (channel_id ch)) (owner_id ch) \<infinity> 0 tks))"

text \<open>
  A channel \<open>ch\<close> owned by session \<open>O\<close>, which issued the root tokens with signatures
  \<open>[10]\<close>, \<open>[11]\<close> and \<open>[12]\<close> to \<open>B\<close>; \<open>B\<close> extended each of them to \<open>C\<close>. A token is encoded
  as its signature.
\<close>

definition root_token :: "bytes \<Rightarrow> nat option \<Rightarrow> token" where
  "root_token sg md =
     \<lparr> issuer = ''O'', token_brokers = [], receiver = ''B'', asset = ChannelAsset ''ch'',
       token_type = ''root'', max_depth = md, signature = sg \<rparr>"

definition extension_token :: "bytes \<Rightarrow> bytes \<Rightarrow> token" where
  "extension_token prev sg =
     \<lparr> issuer = ''B'', token_brokers = [], receiver = ''C'', asset = TokenAsset prev,
       token_type = ''extension'', max_depth = None, signature = sg \<rparr>"

definition decode_example :: "bytes \<Rightarrow> token option" where
  "decode_example e =
     (if e = [10] then Some (root_token [10] None)
      else if e = [11] then Some (root_token [11] (Some 0))
      else if e = [12] then Some (root_token [12] (Some 1))
      else if e = [20] then Some (extension_token [10] [20])
      else if e = [21] then Some (extension_token [11] [21])
      else if e = [22] then Some (extension_token [12] [22])
      else None)"

definition channel_example :: channel where
  "channel_example =
     \<lparr> is_public = False, owner_id = ''O'', channel_id = ''ch'',
       issued_tokens = [[10] \<mapsto> (root_token [10] None, None),
                        [11] \<mapsto> (root_token [11] (Some 0), None),
                        [12] \<mapsto> (root_token [12] (Some 1), None)] \<rparr>"

text \<open>
  The running bound in the words of the spec (section 4.8 and property 8): at chain index
  \<open>d\<close>, the least \<open>i + t\<^sub>i.max_depth\<close> over the tokens at indices \<open>i < d\<close> that declare a
  \<open>max_depth\<close>, and \<open>\<infinity>\<close> when none does.
\<close>

definition declared_bound :: "(bytes \<Rightarrow> token option) \<Rightarrow> bytes list \<Rightarrow> nat \<Rightarrow> enat" where
  "declared_bound dec tks d =
     foldr min
       (map (\<lambda>i. case dec (tks ! i) of
                    None \<Rightarrow> \<infinity>
                  | Some t \<Rightarrow> (case max_depth t of None \<Rightarrow> \<infinity> | Some m \<Rightarrow> enat (i + m)))
            [0..<d])
       \<infinity>"

subsection \<open>Connection.send and Connection.recv: frames, resends and acks\<close>

text \<open>
  The inner function \<^verbatim>\<open>encode(header, payload, bundle_id, message_id, retry)\<close> of
  \<^verbatim>\<open>Connection.send\<close>. \<open>h\<close> is \<^verbatim>\<open>ujson.dumps(header).encode()\<close>, \<open>t\<close> is
  \<^verbatim>\<open>int(time.time() - self.t_offset - 4)\<close> and \<open>sign\<close> is \<^verbatim>\<open>self.session.session_key.sign\<close>.
  The result is the pair \<^verbatim>\<open>(s, t + m)\<close>.
\<close>

definition encode ::
  "(bytes \<Rightarrow> bytes) \<Rightarrow> int \<Rightarrow> bytes \<Rightarrow> bytes \<Rightarrow> bytes option \<Rightarrow> int \<Rightarrow> py_error + (bytes \<times> bytes)" where
  "encode sign t h payload message_id retry =
     (case to_bytes 1 retry of
        Inl e \<Rightarrow> Inl e
      | Inr rb \<Rightarrow>
          let r = rb @ (case message_id of None \<Rightarrow> [] | Some mid \<Rightarrow> mid)
          in (case to_bytes 2 (int (length h)) of
                Inl e \<Rightarrow> Inl e
              | Inr lh \<Rightarrow>
                  (case to_bytes 3 (int (length (r @ payload))) of
                     Inl e \<Rightarrow> Inl e
                   | Inr lp \<Rightarrow>
                       let m = lh @ lp @ h @ r @ payload
                       in (case to_bytes 4 t of
                             Inl e \<Rightarrow> Inl e
                           | Inr tb \<Rightarrow> Inr (sign (tb @ m), tb @ m)))))"

definition MAX_SEND_RETRIES :: nat where
  "MAX_SEND_RETRIES = 3"

text \<open>
  The loop \<^verbatim>\<open>for retry in range(self.MAX_SEND_RETRIES)\<close> of \<^verbatim>\<open>Connection.send\<close> for a message
  that expects an ack, whose id is \<open>message_id\<close>, the signature of the first encoding.
  \<open>acked retry\<close> is what \<^verbatim>\<open>expect_ack\<close> returns in round \<open>retry\<close>, \<open>clock retry\<close> the
  time read by the re-encoding of that round. The result lists the frames written to the
  websocket, in order, and how the loop ended: \<open>None\<close> for the return after an ack,
  \<open>Some e\<close> for an exception (\<open>MaxSendRetries\<close> after the last round).
\<close>

fun send_loop ::
  "(bytes \<Rightarrow> bytes) \<Rightarrow> (nat \<Rightarrow> int) \<Rightarrow> (nat \<Rightarrow> bool) \<Rightarrow> bytes \<Rightarrow> bytes \<Rightarrow> bytes \<Rightarrow>
   nat list \<Rightarrow> bytes \<times> bytes \<Rightarrow> bytes list \<times> py_error option" where
  "send_loop sign clock acked h payload message_id [] (s, mm) = ([], Some MaxSendRetries)"
| "send_loop sign clock acked h payload message_id (retry # rounds) (s, mm) =
     (if acked retry then ([s @ mm], None)
      else if retry < MAX_SEND_RETRIES - 1
      then (case encode sign (clock retry) h payload (Some message_id) (int retry) of
              Inl e \<Rightarrow> ([s @ mm], Some e)
            | Inr (s', mm') \<Rightarrow>
                (case send_loop sign clock acked h payload message_id rounds (s', mm') of
                   (frames, res) \<Rightarrow> ((s @ mm) # frames, res)))
      else (case send_loop sign clock acked h payload message_id rounds (s, mm) of
              (frames, res) \<Rightarrow> ((s @ mm) # frames, res)))"

text \<open>
  \<^verbatim>\<open>Connection.send\<close> of a message with a \<^verbatim>\<open>'send'\<close> action and no \<^verbatim>\<open>ack_message_id\<close>: the first
  encoding has retry byte 0 and no message id, and its signature becomes \<open>message_id\<close>.
\<close>

definition send_frames ::
  "(bytes \<Rightarrow> bytes) \<Rightarrow> int \<Rightarrow> (nat \<Rightarrow> int) \<Rightarrow> (nat \<Rightarrow> bool) \<Rightarrow> bytes \<Rightarrow> bytes \<Rightarrow>
   bytes list \<times> py_error option" where
  "send_frames sign t0 clock acked h payload =
     (case encode sign t0 h payload None 0 of
        Inl e \<Rightarrow> ([], Some e)
      | Inr (s, mm) \<Rightarrow>
          send_loop sign clock acked h payload s [0..<MAX_SEND_RETRIES] (s, mm))"

text \<open>
  \<^verbatim>\<open>Connection.recv\<close>: the fields read from a received message, and what is done for a
  \<^verbatim>\<open>'send'\<close> action whose destination is a local channel. \<^verbatim>\<open>full_payload[0]\<close> raises
  \<^verbatim>\<open>IndexError\<close> on an empty payload region.
\<close>

record frame =
  f_signature :: bytes
  f_timestamp :: nat
  f_header :: bytes
  f_full_payload :: bytes

definition parse_frame :: "bytes \<Rightarrow> frame" where
  "parse_frame message =
     (let len_h = from_bytes (slice message 68 70);
          len_p = from_bytes (slice message 70 73)
      in \<lparr> f_signature = take 64 message,
           f_timestamp = from_bytes (slice message 64 68),
           f_header = slice message 73 (73 + len_h),
           f_full_payload = slice message (73 + len_h) (73 + len_h + len_p) \<rparr>)"

datatype recv_action =
    DeliverAck bytes
  | AckAndHandle bytes bytes

definition recv_action_of :: "bytes \<Rightarrow> bytes \<Rightarrow> py_error + recv_action" where
  "recv_action_of sg full_payload =
     (case full_payload of
        [] \<Rightarrow> Inl IndexError
      | b # _ \<Rightarrow>
          if b = 255 then Inr (DeliverAck (slice full_payload 1 65))
          else Inr (AckAndHandle
                      (if b = 0 then sg else slice full_payload 1 65)
                      (if b = 0 then drop 1 full_payload else drop 65 full_payload)))"

definition recv_frame :: "bytes \<Rightarrow> py_error + recv_action" where
  "recv_frame message =
     recv_action_of (f_signature (parse_frame message)) (f_full_payload (parse_frame message))"

text \<open>
  A stand-in for the session key, to run the definitions on an example: the "signature"
  is 64 bytes that depend on the signed bytes.
\<close>

definition sign_example :: "bytes \<Rightarrow> bytes" where
  "sign_example m = replicate 63 0 @ [of_nat (length m)]"

text \<open>
  The frames written by a send of the 2-byte payload \<open>[9, 9]\<close> with the encoded header
  \<open>[1, 2]\<close> that is never acked: the original and two resends, two seconds apart.
\<close>

definition unacked_frames :: "bytes list" where
  "unacked_frames =
     fst (send_frames sign_example 100 (\<lambda>r. 102 + 2 * int r) (\<lambda>_. False) [1, 2] [9, 9])"

subsection \<open>Channel.send: compression and slices\<close>


definition MAX_COMPRESSION_LEN :: nat where
  "MAX_COMPRESSION_LEN = 2 ^ 19"

text \<open>
  \<^verbatim>\<open>if len(payload) < max_compression: payload = b'\xff' + zlib.compress(payload)\<close>,
  \<^verbatim>\<open>else: payload = b'\x00' + payload\<close>, where \<open>p\<close> is \<^verbatim>\<open>bson.dumps(payload_obj)\<close> and
  \<open>compress\<close> is \<^verbatim>\<open>zlib.compress\<close>.
\<close>

definition compress_payload :: "(bytes \<Rightarrow> bytes) \<Rightarrow> nat \<Rightarrow> bytes \<Rightarrow> bytes" where
  "compress_payload compress max_compression p =
     (if length p < max_compression then 255 # compress p else 0 # p)"

text \<open>\<^verbatim>\<open>n = (len(payload) - 1) // max_payload + 1\<close>, with Python's floor division.\<close>

definition chunk_count :: "bytes \<Rightarrow> nat \<Rightarrow> py_error + nat" where
  "chunk_count payload max_payload =
     (if max_payload = 0 then Inl ZeroDivisionError
      else Inr (nat ((int (length payload) - 1) div int max_payload + 1)))"

text \<open>
  The plaintext \<^verbatim>\<open>chunk\<close> that \<^verbatim>\<open>encrypt_slice\<close> computes for slice \<open>i\<close> of \<open>n\<close>
  (\<^verbatim>\<open>mid = os.urandom(4)\<close>).
\<close>

definition slice_chunk :: "bytes \<Rightarrow> nat \<Rightarrow> bytes \<Rightarrow> nat \<Rightarrow> nat \<Rightarrow> py_error + bytes" where
  "slice_chunk payload max_payload mid n i =
     (if n = 1 then Inr (replicate 4 0 @ payload)
      else if 2 ^ 16 < n then Inl PayloadTooLarge
      else (case to_bytes 2 (int i) of
              Inl e \<Rightarrow> Inl e
            | Inr ib \<Rightarrow>
                (case to_bytes 2 (int n) of
                   Inl e \<Rightarrow> Inl e
                 | Inr nb \<Rightarrow>
                     Inr (ib @ nb @ mid @ slice payload (i * max_payload) ((i + 1) * max_payload)))))"

text \<open>
  The generator \<^verbatim>\<open>encrypt_slice(payload, max_payload, shared_key, mid, n, i)\<close>: the slices
  it yields and the exception that ends it, if any. \<open>enc i chunk\<close> stands for
  \<^verbatim>\<open>nonce + shared_key.encrypt(chunk, nonce)\<close> with the nonce drawn for slice \<open>i\<close>.
\<close>

function encrypt_slice ::
  "(nat \<Rightarrow> bytes \<Rightarrow> bytes) \<Rightarrow> bytes \<Rightarrow> nat \<Rightarrow> bytes \<Rightarrow> nat \<Rightarrow> nat \<Rightarrow> bytes list \<times> py_error option" where
  "encrypt_slice enc payload max_payload mid n i =
     (if i < n
      then (case slice_chunk payload max_payload mid n i of
              Inl e \<Rightarrow> ([], Some e)
            | Inr chunk \<Rightarrow>
                (case encrypt_slice enc payload max_payload mid n (i + 1) of
                   (rest, err) \<Rightarrow> (enc i chunk # rest, err)))
      else ([], None))"
  by pat_completeness auto
termination
  by (relation "measure (\<lambda>(enc, payload, max_payload, mid, n, i). n - i)") auto

declare encrypt_slice.simps [simp del]

text \<open>
  The part of \<^verbatim>\<open>Channel.send\<close> that turns the encoded object into slices: compression
  flag, number of slices, generator.
\<close>

definition send_slices ::
  "(bytes \<Rightarrow> bytes) \<Rightarrow> (nat \<Rightarrow> bytes \<Rightarrow> bytes) \<Rightarrow> nat \<Rightarrow> nat \<Rightarrow> bytes \<Rightarrow> bytes \<Rightarrow>
   bytes list \<times> py_error option" where
  "send_slices compress enc max_compression max_payload mid p =
     (let payload = compress_payload compress max_compression p
      in case chunk_count payload max_payload of
           Inl e \<Rightarrow> ([], Some e)
         | Inr n \<Rightarrow> encrypt_slice enc payload max_payload mid n 0)"

subsection \<open>Channel.handle_message: dispatch and reassembly\<close>

text \<open>
  The receiving side of a channel: \<^verbatim>\<open>self.chunks\<close> (message id to index to chunk),
  \<^verbatim>\<open>self.messages\<close> (a deque; \<^verbatim>\<open>appendleft\<close> puts the newest first) and \<^verbatim>\<open>self.lock\<close>. A
  document is kept as the bytes handed to \<^verbatim>\<open>bson.loads\<close>.
\<close>

record channel_rx =
  chunks :: "(bytes \<times> (nat \<times> bytes) list) list"
  messages :: "(route \<times> bytes) list"
  lock :: bool

text \<open>
  The two copies of the decoding by compression flag, at \<^verbatim>\<open>payload[4]\<close> for a single
  frame and at \<^verbatim>\<open>payload[0]\<close> for a reassembled message: flag 0 takes the rest raw, flag
  255 decompresses it (\<open>decompress\<close> is \<^verbatim>\<open>zlib.decompress\<close>, \<open>None\<close> where it raises), any
  other flag raises.
\<close>

definition deliver ::
  "(bytes \<Rightarrow> bytes option) \<Rightarrow> channel_rx \<Rightarrow> route \<Rightarrow> bytes \<Rightarrow> nat \<Rightarrow> channel_rx \<times> py_error option" where
  "deliver decompress rx source payload k =
     (if length payload \<le> k then (rx, Some IndexError)
      else if payload ! k = 0
      then (rx\<lparr> messages := (source, drop (k + 1) payload) # messages rx, lock := True \<rparr>, None)
      else if payload ! k = 255
      then (case decompress (drop (k + 1) payload) of
              None \<Rightarrow> (rx, Some ZlibError)
            | Some doc \<Rightarrow> (rx\<lparr> messages := (source, doc) # messages rx, lock := True \<rparr>, None))
      else (rx, Some DifferentEncoding))"

text \<open>\<^verbatim>\<open>b''.join(chunks[ii] for ii in range(n))\<close>; a missing index raises \<^verbatim>\<open>KeyError\<close>.\<close>

fun join_chunks :: "(nat \<times> bytes) list \<Rightarrow> nat list \<Rightarrow> py_error + bytes" where
  "join_chunks cs [] = Inr []"
| "join_chunks cs (ii # iis) =
     (case map_of cs ii of
        None \<Rightarrow> Inl KeyError
      | Some c \<Rightarrow> (case join_chunks cs iis of Inl e \<Rightarrow> Inl e | Inr r \<Rightarrow> Inr (c @ r)))"

text \<open>
  \<^verbatim>\<open>Channel.handle_message\<close> from the decrypted \<open>payload\<close> on. The result is the channel
  afterwards and the exception raised, if any.
\<close>

definition handle_payload ::
  "(bytes \<Rightarrow> bytes option) \<Rightarrow> channel_rx \<Rightarrow> route \<Rightarrow> bytes \<Rightarrow> channel_rx \<times> py_error option" where
  "handle_payload decompress rx source payload =
     (if take 4 payload = replicate 4 0 then deliver decompress rx source payload 4
      else
        let i = from_bytes (take 2 payload);
            n = from_bytes (slice payload 2 4);
            mid = slice payload 4 8;
            chunk = drop 8 payload;
            cs = AList.update i chunk (case map_of (chunks rx) mid of None \<Rightarrow> [] | Some d \<Rightarrow> d);
            rx1 = rx\<lparr> chunks := AList.update mid cs (chunks rx) \<rparr>
        in if length cs = n
           then (let rx2 = rx1\<lparr> chunks := AList.delete mid (chunks rx1) \<rparr>
                 in case join_chunks cs [0..<n] of
                      Inl e \<Rightarrow> (rx2, Some e)
                    | Inr joined \<Rightarrow> deliver decompress rx2 source joined 0)
           else (rx1, None))"

text \<open>
  \<^verbatim>\<open>Channel.handle_message(source, destination, raw_payload)\<close>. \<open>decrypt raw\<close> stands for
  \<^verbatim>\<open>shared_key.decrypt(raw_payload[16:], raw_payload[:16])\<close>, \<open>None\<close> where it raises.
\<close>

definition handle_message ::
  "(bytes \<Rightarrow> token option) \<Rightarrow> (bytes \<Rightarrow> bytes option) \<Rightarrow> (bytes \<Rightarrow> bytes option) \<Rightarrow>
   channel \<Rightarrow> channel_rx \<Rightarrow> route \<Rightarrow> route \<Rightarrow> bytes \<Rightarrow> channel_rx \<times> py_error option" where
  "handle_message dec decrypt decompress ch rx source destination raw_payload =
     (if validate_token_chain dec ch (session source) (tokens destination)
      then (case decrypt raw_payload of
              None \<Rightarrow> (rx, Some DecryptError)
            | Some payload \<Rightarrow> handle_payload decompress rx source payload)
      else (rx, None))"


text \<open>An empty receiving side.\<close>

definition rx_empty :: channel_rx where
  "rx_empty = \<lparr> chunks = [], messages = [], lock = False \<rparr>"

text \<open>
  The same channel with delegations that lead back to the owner: \<open>C\<close> extended \<open>[20]\<close>
  to \<open>O\<close> by token \<open>[30]\<close> and \<open>O\<close> extended that to \<open>C\<close> by token \<open>[40]\<close>; \<open>B\<close> extended
  \<open>[10]\<close> to \<open>O\<close> by token \<open>[31]\<close> and \<open>O\<close> extended that to \<open>D\<close> by token \<open>[41]\<close>.
\<close>

definition link_token :: "string \<Rightarrow> string \<Rightarrow> bytes \<Rightarrow> bytes \<Rightarrow> token" where
  "link_token iss rcv prev sg =
     \<lparr> issuer = iss, token_brokers = [], receiver = rcv, asset = TokenAsset prev,
       token_type = ''extension'', max_depth = None, signature = sg \<rparr>"

definition decode_loop_example :: "bytes \<Rightarrow> token option" where
  "decode_loop_example e =
     (if e = [30] then Some (link_token ''C'' ''O'' [20] [30])
      else if e = [40] then Some (link_token ''O'' ''C'' [30] [40])
      else if e = [31] then Some (link_token ''B'' ''O'' [10] [31])
      else if e = [41] then Some (link_token ''O'' ''D'' [31] [41])
      else decode_example e)"

definition channel_loop_example :: channel where
  "channel_loop_example =
     channel_example\<lparr> issued_tokens :=
       (issued_tokens channel_example)
         ([40] \<mapsto> (link_token ''O'' ''C'' [30] [40], Some (link_token ''C'' ''O'' [20] [30])),
          [41] \<mapsto> (link_token ''O'' ''D'' [31] [41], Some (link_token ''B'' ''O'' [10] [31]))) \<rparr>"


section \<open>Replay rejection\<close>

text \<open>
  C1 (replay rejection within 60 seconds). The code does not keep the promise: the third
  component of \<open>seen_messages\<close> stays 0, so in every odd minute (\<open>lead = 1\<close>) each call
  empties bucket 1 before looking the signature up. From the initial state, a frame
  accepted at time 60 is accepted again one second later with the same signature.
\<close>

theorem check_no_repeat_replay_accepted:
  "fst (check_no_repeat 60 seen_init sig 60) = True \<and>
   fst (check_no_repeat 61 (snd (check_no_repeat 60 seen_init sig 60)) sig 60) = True"
  by (simp add: check_no_repeat_def seen_init_def clear_bucket_def add_bucket_def Let_def)

section \<open>Purging a bundle\<close>

lemma clear_loop_unchanged: "clear_loop items b aw = Inr aw"
  by (induction items b aw rule: clear_loop.induct) auto

text \<open>
  C3 (bundle purge). The code does not purge: \<^verbatim>\<open>v[2]\<close> is the entry's event, not its
  bundle id (\<^verbatim>\<open>v[1]\<close>), and an event never equals a \<^verbatim>\<open>bytes\<close> value. So for every bundle
  id and every state \<^verbatim>\<open>clear\<close> returns with \<open>awaiting_ack\<close> as it was; the entries whose
  stored bundle id is the one given are all still there.
\<close>

theorem clear_removes_nothing: "clear bundle_id c = Inr c"
  by (simp add: clear_def clear_loop_unchanged split: option.split)

section \<open>Acks\<close>

lemma ack_loop_no_send:
  "send_contents h = [] \<Longrightarrow> ack_loop h source_id message_id c = Inr c"
  by (induction h) (auto simp: send_contents_def)

lemma ack_loop_one_send:
  assumes "send_contents h = [RouteDicts src dst]"
    and "map_of (awaiting_ack c) message_id = Some t"
  shows "ack_loop h source_id message_id c =
     Inr (if session dst = source_id
          then c\<lparr> awaiting_ack := AList.delete message_id (awaiting_ack c),
                  events := (case AList.delete message_id (awaiting_ack c) of
                               [] \<Rightarrow> (events c)(entry_lock t := True)
                             | (k, v) # _ \<Rightarrow> ((events c)(entry_lock t := True))(entry_lock v := True)) \<rparr>
          else c)"
  using assms
proof (induction h)
  case Nil
  then show ?case by (simp add: send_contents_def)
next
  case (Cons a h)
  obtain action cont where a: "a = (action, cont)" by (cases a)
  show ?case
  proof (cases "action = ''send''")
    case True
    with Cons.prems a have c: "cont = RouteDicts src dst" and r: "send_contents h = []"
      by (auto simp: send_contents_def)
    show ?thesis using True a c Cons.prems(2) ack_loop_no_send[OF r]
      by (simp add: Let_def)
  next
    case False
    with Cons.prems a have "send_contents h = [RouteDicts src dst]"
      by (auto simp: send_contents_def)
    with Cons.IH Cons.prems(2) False a show ?thesis by simp
  qed
qed

text \<open>
  C9 (ack handling, spurious acks). For a recorded header with one \<^verbatim>\<open>'send'\<close> action, as
  \<^verbatim>\<open>Connection.send\<close> records them: when \<open>message_id\<close> is a key of \<open>awaiting_ack\<close> and the
  destination session of that action is \<open>source_id\<close>, \<^verbatim>\<open>ack\<close> removes exactly the entry of
  \<open>message_id\<close> (the other entries stay, in order), sets the removed entry's event and
  the event of the new first entry; when \<open>message_id\<close> is not a key, or the destination
  session differs from \<open>source_id\<close>, the connection is returned unchanged.
\<close>

theorem ack_removes_or_ignores:
  "(map_of (awaiting_ack c) message_id = None \<longrightarrow> ack source_id message_id c = Inr c) \<and>
   (map_of (awaiting_ack c) message_id = Some (h, b, l) \<and> send_contents h = [RouteDicts src dst] \<longrightarrow>
      ack source_id message_id c =
        Inr (if session dst = source_id
             then c\<lparr> awaiting_ack := filter (\<lambda>(k, v). k \<noteq> message_id) (awaiting_ack c),
                     events := (case filter (\<lambda>(k, v). k \<noteq> message_id) (awaiting_ack c) of
                                  [] \<Rightarrow> (events c)(l := True)
                                | (k, v) # _ \<Rightarrow> ((events c)(l := True))(entry_lock v := True)) \<rparr>
             else c))"
proof -
  have d: "AList.delete message_id (awaiting_ack c) = filter (\<lambda>(k, v). k \<noteq> message_id) (awaiting_ack c)"
    by (simp add: AList.delete_eq case_prod_unfold eq_commute[of message_id])
  show ?thesis
    by (auto simp: ack_def ack_loop_one_send d split: list.split)
qed

theorem ack_removes_or_ignores_witness:
  "ack ''B'' [3] conn_two_pending = Inr conn_two_pending \<and>
   ack ''C'' [1] conn_two_pending = Inr conn_two_pending \<and>
   ack ''B'' [1] conn_two_pending =
     Inr \<lparr> awaiting_ack = [([2], (header_A_to_B, Some [7, 7, 7, 7], 1))],
           events = (\<lambda>_. False)(0 := True, 1 := True) \<rparr>"
proof -
  have absent: "map_of (awaiting_ack conn_two_pending) [3] = None"
    by (simp add: conn_two_pending_def)
  have present: "map_of (awaiting_ack conn_two_pending) [1] = Some (header_A_to_B, Some [7, 7, 7, 7], 0) \<and>
      send_contents header_A_to_B = [RouteDicts route_A route_B]"
    by (simp add: conn_two_pending_def header_A_to_B_def send_contents_def)
  have 1: "ack ''B'' [3] conn_two_pending = Inr conn_two_pending"
    using ack_removes_or_ignores [of conn_two_pending "[3]" "''B''"] absent by simp
  have 2: "ack ''C'' [1] conn_two_pending = Inr conn_two_pending"
    using ack_removes_or_ignores [of conn_two_pending "[1]" "''C''" header_A_to_B "Some [7, 7, 7, 7]" 0 route_A route_B]
      present by (simp add: route_B_def)
  have 3: "ack ''B'' [1] conn_two_pending =
     Inr \<lparr> awaiting_ack = [([2], (header_A_to_B, Some [7, 7, 7, 7], 1))],
           events = (\<lambda>_. False)(0 := True, 1 := True) \<rparr>"
    using ack_removes_or_ignores [of conn_two_pending "[1]" "''B''" header_A_to_B "Some [7, 7, 7, 7]" 0 route_A route_B]
      present by (simp add: route_B_def conn_two_pending_def)
  from 1 2 3 show ?thesis by simp
qed

section \<open>Token chains\<close>

lemma validate_loop_agrees:
  assumes "\<forall>e \<in> set tks. \<forall>t. dec e = Some t \<longrightarrow> max_depth t \<noteq> Some 0"
    and "md \<noteq> Some 0"
  shows "validate_loop dec owner it source_id ast lr md d tks =
         spec_chain_accepts dec owner it source_id ast lr
           (case md of None \<Rightarrow> \<infinity> | Some m \<Rightarrow> enat m) d tks"
  using assms
proof (induction tks arbitrary: ast lr md d)
  case Nil
  then show ?case by simp
next
  case (Cons e tks)
  show ?case
  proof (cases "dec e")
    case None
    then show ?thesis by simp
  next
    case (Some t)
    with Cons.prems have t0: "max_depth t \<noteq> Some 0" by simp
    define md' where "md' = (if truthy (max_depth t)
                             then (if \<not> truthy md \<or> the (max_depth t) + d < the md
                                   then Some (the (max_depth t) + d) else md)
                             else md)"
    have md'0: "md' \<noteq> Some 0" using t0 Cons.prems(2)
      by (cases "max_depth t"; cases md) (auto simp: md'_def)
    have rel: "(case md' of None \<Rightarrow> \<infinity> | Some m \<Rightarrow> enat m) =
       (case max_depth t of None \<Rightarrow> (case md of None \<Rightarrow> \<infinity> | Some m \<Rightarrow> enat m)
          | Some m \<Rightarrow> min (case md of None \<Rightarrow> \<infinity> | Some m \<Rightarrow> enat m) (enat (d + m)))"
      using t0 Cons.prems(2)
      by (cases "max_depth t"; cases md) (auto simp: md'_def min_def)
    have chk: "(\<not> truthy md' \<or> d \<le> the md') =
               (enat d \<le> (case md' of None \<Rightarrow> \<infinity> | Some m \<Rightarrow> enat m))"
      using md'0 by (cases md') auto
    have IH: "validate_loop dec owner it source_id (TokenAsset (signature t)) (receiver t) md' (Suc d) tks =
         spec_chain_accepts dec owner it source_id (TokenAsset (signature t)) (receiver t)
           (case md' of None \<Rightarrow> \<infinity> | Some m \<Rightarrow> enat m) (Suc d) tks"
      using Cons.IH[OF _ md'0] Cons.prems(1) by simp
    show ?thesis
      using Some IH chk rel unfolding md'_def
      by (auto simp: Let_def)
  qed
qed

text \<open>
  Where no token of the chain declares \<open>max_depth = 0\<close>, the code decides exactly as the
  spec's acceptance condition does.
\<close>

lemma validate_agrees_without_zero_depth:
  assumes "\<forall>e \<in> set tks. \<forall>t. dec e = Some t \<longrightarrow> max_depth t \<noteq> Some 0"
  shows "validate_token_chain dec ch source_id tks = spec_authorizes dec ch source_id tks"
  using validate_loop_agrees[OF assms, of None]
  by (auto simp: validate_token_chain_def spec_authorizes_def)

text \<open>
  C4 (token-chain validation). The equivalence with the spec's acceptance condition fails
  where a token declares \<open>max_depth = 0\<close>: \<^verbatim>\<open>if token.max_depth:\<close> takes 0 for "not
  declared". The owner \<open>O\<close> issued the root token \<open>[11]\<close> to \<open>B\<close> with \<open>max_depth = 0\<close>, \<open>B\<close>
  extended it to \<open>C\<close> by token \<open>[21]\<close>. The spec's condition rejects the chain from \<open>C\<close>
  (index 1 exceeds the bound 0 + 0); the code accepts it.
\<close>

theorem validate_token_chain_differs_from_spec:
  "validate_token_chain decode_example channel_example ''C'' [[11], [21]] \<and>
   \<not> spec_authorizes decode_example channel_example ''C'' [[11], [21]]"
  by (simp add: validate_token_chain_def spec_authorizes_def channel_example_def
      decode_example_def root_token_def extension_token_def)

lemma validate_loop_revoked:
  assumes "dec y = Some t" "issuer t = owner" "it (signature t) = None"
    and "\<not> validate_loop dec owner it source_id ast lr md d xs"
  shows "\<not> validate_loop dec owner it source_id ast lr md d (xs @ y # ys)"
  using assms(4)
proof (induction xs arbitrary: ast lr md d)
  case Nil
  then show ?case using assms(1-3) by simp
next
  case (Cons x xs)
  show ?case
  proof (cases "dec x")
    case None
    then show ?thesis by simp
  next
    case (Some u)
    show ?thesis using Cons.prems Cons.IH Some
      by (auto simp: Let_def split: if_splits)
  qed
qed

text \<open>
  C5 (revocation), as stated, fails: validation returns \<^verbatim>\<open>True\<close> at the first token whose
  receiver is \<open>source_id\<close> and never decodes the tokens after it. After \<open>O\<close> revoked token
  \<open>[40]\<close>, the chain \<open>O \<rightarrow> B \<rightarrow> C \<rightarrow> O \<rightarrow> C\<close>, whose last link is the revoked token issued
  by the owner, is still accepted from \<open>C\<close> (at index 1); so is the chain
  \<open>[[10], [20], [12]]\<close> from \<open>C\<close> after \<open>[12]\<close> was revoked.
\<close>

theorem revoked_token_after_accepting_token:
  "revoke_token [40] (issued_tokens channel_loop_example) =
     Inr ((issued_tokens channel_loop_example)([40] := None), ''token'', ''revoke'', [40]) \<and>
   \<not> is_public channel_loop_example \<and> ''C'' \<noteq> owner_id channel_loop_example \<and>
   decode_loop_example ([[10], [20], [30], [40]] ! 3) = Some (link_token ''O'' ''C'' [30] [40]) \<and>
   issuer (link_token ''O'' ''C'' [30] [40]) = owner_id channel_loop_example \<and>
   signature (link_token ''O'' ''C'' [30] [40]) = [40] \<and>
   validate_token_chain decode_loop_example
     (channel_loop_example\<lparr> issued_tokens := (issued_tokens channel_loop_example)([40] := None) \<rparr>)
     ''C'' [[10], [20], [30], [40]] \<and>
   revoke_token [12] (issued_tokens channel_example) =
     Inr ((issued_tokens channel_example)([12] := None), ''token'', ''revoke'', [12]) \<and>
   decode_example ([[10], [20], [12]] ! 2) = Some (root_token [12] (Some 1)) \<and>
   issuer (root_token [12] (Some 1)) = owner_id channel_example \<and>
   validate_token_chain decode_example
     (channel_example\<lparr> issued_tokens := (issued_tokens channel_example)([12] := None) \<rparr>)
     ''C'' [[10], [20], [12]]"
  by (simp add: revoke_token_def validate_token_chain_def channel_loop_example_def
      channel_example_def decode_loop_example_def decode_example_def link_token_def
      root_token_def extension_token_def)

text \<open>
  C5 (revocation), amended. Let \<^verbatim>\<open>revoke_token(sg)\<close> succeed and leave the registry \<open>it'\<close>.
  On a channel that is not public, for a source that is not the owner, every chain in
  which validation reaches a token issued by the owner with signature \<open>sg\<close> is rejected:
  the token stands at some index \<open>i\<close> of the chain and the tokens before index \<open>i\<close> are not
  accepted on their own. In particular every chain whose first token is the revoked one
  is rejected (\<open>i = 0\<close>, nothing stands before it).
\<close>

theorem revoked_token_rejected:
  assumes "revoke_token sg (issued_tokens ch) = Inr (it', hdr)"
    and "\<not> is_public ch" and "source_id \<noteq> owner_id ch"
    and "i < length tks" and "dec (tks ! i) = Some t"
    and "issuer t = owner_id ch" and "signature t = sg"
    and "\<not> validate_token_chain dec (ch\<lparr> issued_tokens := it' \<rparr>) source_id (take i tks)"
  shows "\<not> validate_token_chain dec (ch\<lparr> issued_tokens := it' \<rparr>) source_id tks"
proof -
  have it': "it' (signature t) = None"
    using assms(1,7) by (auto simp: revoke_token_def split: option.splits)
  have split: "tks = take i tks @ tks ! i # drop (Suc i) tks"
    using assms(4) by (simp add: id_take_nth_drop)
  have pre: "\<not> validate_loop dec (owner_id ch) it' source_id
               (ChannelAsset (channel_id ch)) (owner_id ch) None 0 (take i tks)"
    using assms(2,3,8) by (cases "take i tks = []") (auto simp: validate_token_chain_def)
  have "\<not> validate_loop dec (owner_id ch) it' source_id
               (ChannelAsset (channel_id ch)) (owner_id ch) None 0
               (take i tks @ tks ! i # drop (Suc i) tks)"
    using validate_loop_revoked[OF assms(5) assms(6) it' pre] .
  with split have "\<not> validate_loop dec (owner_id ch) it' source_id
               (ChannelAsset (channel_id ch)) (owner_id ch) None 0 tks" by simp
  then show ?thesis using assms(2,3) by (simp add: validate_token_chain_def)
qed

theorem revoked_token_rejected_witness:
  "revoke_token [41] (issued_tokens channel_loop_example) =
     Inr ((issued_tokens channel_loop_example)([41] := None), ''token'', ''revoke'', [41]) \<and>
   validate_token_chain decode_loop_example channel_loop_example ''D'' [[10], [31], [41]] \<and>
   \<not> validate_token_chain decode_loop_example
       (channel_loop_example\<lparr> issued_tokens := (issued_tokens channel_loop_example)([41] := None) \<rparr>)
       ''D'' [[10], [31], [41]] \<and>
   revoke_token [12] (issued_tokens channel_example) =
     Inr ((issued_tokens channel_example)([12] := None), ''token'', ''revoke'', [12]) \<and>
   validate_token_chain decode_example channel_example ''C'' [[12], [22]] \<and>
   \<not> validate_token_chain decode_example
       (channel_example\<lparr> issued_tokens := (issued_tokens channel_example)([12] := None) \<rparr>)
       ''C'' [[12], [22]]"
proof -
  have r2: "revoke_token [41] (issued_tokens channel_loop_example) =
     Inr ((issued_tokens channel_loop_example)([41] := None), ''token'', ''revoke'', [41])"
    by (simp add: revoke_token_def channel_loop_example_def)
  have before2: "validate_token_chain decode_loop_example channel_loop_example ''D'' [[10], [31], [41]]"
    by (simp add: validate_token_chain_def channel_loop_example_def channel_example_def
        decode_loop_example_def decode_example_def link_token_def root_token_def)
  have pre2: "\<not> validate_token_chain decode_loop_example
       (channel_loop_example\<lparr> issued_tokens := (issued_tokens channel_loop_example)([41] := None) \<rparr>)
       ''D'' (take 2 [[10], [31], [41]])"
    by (simp add: validate_token_chain_def channel_loop_example_def channel_example_def
        decode_loop_example_def decode_example_def link_token_def root_token_def)
  have after2: "\<not> validate_token_chain decode_loop_example
       (channel_loop_example\<lparr> issued_tokens := (issued_tokens channel_loop_example)([41] := None) \<rparr>)
       ''D'' [[10], [31], [41]]"
    using revoked_token_rejected [OF r2, of "''D''" 2 "[[10], [31], [41]]" decode_loop_example
        "link_token ''O'' ''D'' [31] [41]"] pre2
    by (simp add: channel_loop_example_def channel_example_def decode_loop_example_def
        link_token_def)
  have r: "revoke_token [12] (issued_tokens channel_example) =
     Inr ((issued_tokens channel_example)([12] := None), ''token'', ''revoke'', [12])"
    by (simp add: revoke_token_def channel_example_def)
  have before: "validate_token_chain decode_example channel_example ''C'' [[12], [22]]"
    by (simp add: validate_token_chain_def channel_example_def decode_example_def
        root_token_def extension_token_def)
  have pre: "\<not> validate_token_chain decode_example
       (channel_example\<lparr> issued_tokens := (issued_tokens channel_example)([12] := None) \<rparr>)
       ''C'' (take 0 [[12], [22]])"
    by (simp add: validate_token_chain_def channel_example_def)
  have after: "\<not> validate_token_chain decode_example
       (channel_example\<lparr> issued_tokens := (issued_tokens channel_example)([12] := None) \<rparr>)
       ''C'' [[12], [22]]"
    using revoked_token_rejected [OF r, of "''C''" 0 "[[12], [22]]" decode_example
        "root_token [12] (Some 1)"] pre
    by (simp add: channel_example_def decode_example_def root_token_def)
  from r2 before2 after2 r before after show ?thesis by simp
qed

text \<open>
  C6 (max-depth enforcement). The code does not enforce the smallest bound. In the chain
  \<open>[[11], [21]]\<close> the root token declares \<open>max_depth = 0\<close>, so the bound at index 1 is
  0 + 0 = 0 and the token at index 1 exceeds it; the code accepts the chain from \<open>C\<close>,
  because \<^verbatim>\<open>if token.max_depth:\<close> is false for 0 and the bound stays unset.
\<close>

theorem zero_max_depth_not_enforced:
  "declared_bound decode_example [[11], [21]] 1 = 0 \<and>
   enat 1 > declared_bound decode_example [[11], [21]] 1 \<and>
   validate_token_chain decode_example channel_example ''C'' [[11], [21]]"
  by (simp add: declared_bound_def validate_token_chain_def channel_example_def
      decode_example_def root_token_def extension_token_def zero_enat_def)

section \<open>Frames, resends and the signature they are acked by\<close>

lemma length_be_bytes [simp]: "length (be_bytes k v) = k"
  by (induction k arbitrary: v) auto

lemma from_bytes_snoc: "from_bytes (bs @ [b]) = from_bytes bs * 256 + unat b"
  by (simp add: from_bytes_def)

lemma unat_byte_of_nat: "unat (of_nat (v mod 256) :: byte) = v mod 256"
  by (simp add: unat_of_nat)

lemma from_bytes_be_bytes: "v < 256 ^ k \<Longrightarrow> from_bytes (be_bytes k v) = v"
proof (induction k arbitrary: v)
  case 0
  then show ?case by (simp add: from_bytes_def)
next
  case (Suc k)
  then have "v div 256 < 256 ^ k"
    by (simp add: less_mult_imp_div_less mult.commute)
  with Suc.IH have "from_bytes (be_bytes k (v div 256)) = v div 256" by simp
  then show ?case by (simp add: from_bytes_snoc unat_byte_of_nat)
qed

lemma to_bytes_Inr:
  "to_bytes k v = Inr bs \<Longrightarrow> length bs = k \<and> from_bytes bs = nat v \<and> 0 \<le> v"
  by (auto simp: to_bytes_def from_bytes_be_bytes nat_less_iff split: if_splits)

text \<open>The receiver reads back the fields the sender wrote.\<close>

lemma parse_frame_encode:
  assumes "length s = 64" "to_bytes 4 t = Inr tb" "to_bytes 2 (int (length h)) = Inr lh"
    "to_bytes 3 (int (length rp)) = Inr lp"
  shows "parse_frame (s @ tb @ lh @ lp @ h @ rp) =
     \<lparr> f_signature = s, f_timestamp = nat t, f_header = h, f_full_payload = rp \<rparr>"
proof -
  from to_bytes_Inr[OF assms(2)] have tb: "length tb = 4" "from_bytes tb = nat t" by auto
  from to_bytes_Inr[OF assms(3)] have lh: "length lh = 2" "from_bytes lh = length h" by auto
  from to_bytes_Inr[OF assms(4)] have lp: "length lp = 3" "from_bytes lp = length rp" by auto
  show ?thesis
    using assms(1) tb lh lp
    by (simp add: parse_frame_def slice_def Let_def)
qed

lemma resend_frame_received:
  assumes sg: "\<forall>m. length (sign m) = 64"
    and enc: "encode sign t h payload (Some message_id) retry = Inr (s, mm)"
  shows "\<exists>rb. to_bytes 1 retry = Inr rb \<and>
              recv_frame (s @ mm) = recv_action_of s (rb @ message_id @ payload)"
proof -
  from enc obtain rb lh lp tb where
    rb: "to_bytes 1 retry = Inr rb" and
    lh: "to_bytes 2 (int (length h)) = Inr lh" and
    lp: "to_bytes 3 (int (length ((rb @ message_id) @ payload))) = Inr lp" and
    tb: "to_bytes 4 t = Inr tb" and
    s: "s = sign (tb @ lh @ lp @ h @ (rb @ message_id) @ payload)" and
    mm: "mm = tb @ lh @ lp @ h @ (rb @ message_id) @ payload"
    by (auto simp: encode_def Let_def split: sum.splits)
  have "length s = 64" using sg s by simp
  from parse_frame_encode[OF this tb lh lp]
  show ?thesis using rb mm by (simp add: recv_frame_def)
qed

text \<open>
  Whatever the key: the resend encoded in round 0 carries retry byte 0, so the receiver
  takes it for an original message. It acks it by the resend's own signature \<open>s\<close> and hands
  the channel the original signature followed by the payload.
\<close>

lemma first_resend_acked_by_own_signature:
  assumes sg: "\<forall>m. length (sign m) = 64"
    and enc: "encode sign t h payload (Some message_id) 0 = Inr (s, mm)"
  shows "recv_frame (s @ mm) = Inr (AckAndHandle s (message_id @ payload))"
proof -
  have "to_bytes 1 0 = Inr [0]" by (simp add: to_bytes_def)
  with resend_frame_received[OF sg enc] show ?thesis
    by (simp add: recv_action_of_def)
qed

text \<open>
  C2 (resend ack identity). The code breaks the identity at the first retransmission. Of
  the three frames of a send that is never acked, the receiver acks the original (index 0)
  by its signature and the second resend (index 2, retry byte 1) by the original signature
  carried in \<^verbatim>\<open>full_payload[1:65]\<close>; but the first resend (index 1) is encoded with
  \<^verbatim>\<open>retry = 0\<close>, the loop index, so the receiver acks it by the resend's own signature,
  which is not the original one, and passes the 64 signature bytes on as payload.
\<close>

theorem first_resend_acked_by_fresh_signature:
  "length unacked_frames = 3 \<and>
   recv_frame (unacked_frames ! 0) = Inr (AckAndHandle (take 64 (unacked_frames ! 0)) [9, 9]) \<and>
   recv_frame (unacked_frames ! 1) =
     Inr (AckAndHandle (take 64 (unacked_frames ! 1)) (take 64 (unacked_frames ! 0) @ [9, 9])) \<and>
   take 64 (unacked_frames ! 1) \<noteq> take 64 (unacked_frames ! 0) \<and>
   recv_frame (unacked_frames ! 2) = Inr (AckAndHandle (take 64 (unacked_frames ! 0)) [9, 9])"
  unfolding unacked_frames_def
  by code_simp

section \<open>Compression flag\<close>

lemma replicate_4: "replicate 4 x = [x, x, x, x]"
  by (simp add: numeral_eq_Suc)

text \<open>
  C8 (compression round trip and flag selection). Given that zlib decompresses what it
  compressed: the sender builds \<open>0xff || compress p\<close> when \<open>length p < max_compression\<close>
  and \<open>0x00 || p\<close> otherwise, and the receiver, decoding by the flag, delivers \<open>p\<close> in
  both cases, for a reassembled message (flag at index 0) as for a single frame (flag
  after the four zero bytes).
\<close>

theorem compression_round_trip:
  assumes "\<forall>x. decompress (compress x) = Some x"
  shows "compress_payload compress maxc p = (if length p < maxc then 255 # compress p else 0 # p) \<and>
         deliver decompress rx source (compress_payload compress maxc p) 0
           = (rx\<lparr> messages := (source, p) # messages rx, lock := True \<rparr>, None) \<and>
         handle_payload decompress rx source (replicate 4 0 @ compress_payload compress maxc p)
           = (rx\<lparr> messages := (source, p) # messages rx, lock := True \<rparr>, None)"
  using assms
  by (simp add: compress_payload_def deliver_def handle_payload_def replicate_4)

theorem compression_round_trip_witness:
  "compress_payload rev 100 [10, 11, 12] = [255, 12, 11, 10] \<and>
   compress_payload rev 3 [10, 11, 12] = [0, 10, 11, 12] \<and>
   handle_payload (\<lambda>x. Some (rev x)) rx_empty route_A
       (replicate 4 0 @ compress_payload rev 100 [10, 11, 12])
     = (rx_empty\<lparr> messages := [(route_A, [10, 11, 12])], lock := True \<rparr>, None) \<and>
   deliver (\<lambda>x. Some (rev x)) rx_empty route_A (compress_payload rev 3 [10, 11, 12]) 0
     = (rx_empty\<lparr> messages := [(route_A, [10, 11, 12])], lock := True \<rparr>, None)"
  using compression_round_trip [of "\<lambda>x. Some (rev x)" rev 100 "[10, 11, 12]" rx_empty route_A]
    compression_round_trip [of "\<lambda>x. Some (rev x)" rev 3 "[10, 11, 12]" rx_empty route_A]
  by (simp add: rx_empty_def compress_payload_def)

section \<open>Single frames and chunks\<close>

lemma be_bytes_2: "be_bytes 2 v = [of_nat (v div 256 mod 256), of_nat (v mod 256)]"
  by (simp add: numeral_2_eq_2)

lemma byte_of_nat_0: "k < 256 \<Longrightarrow> (of_nat k :: byte) = 0 \<longleftrightarrow> k = 0"
  using unat_byte_of_nat[of k] by (auto simp: unat_eq_zero)

text \<open>
  C10 (sentinel non-collision). Every plaintext chunk that \<^verbatim>\<open>encrypt_slice\<close> builds
  (\<open>i < n\<close>, no exception) starts with four zero bytes exactly when \<open>n = 1\<close>: for \<open>n \<ge> 2\<close>
  bytes 2 and 3 encode \<open>n\<close> and are not both zero. The test \<^verbatim>\<open>payload[:4] == b'\x00'*4\<close>
  of \<open>handle_payload\<close> therefore takes the single-frame branch for the chunk of a
  one-chunk message and the reassembly branch for every chunk of a longer one.
\<close>

theorem multi_chunk_never_sentinel:
  assumes "i < n" and "slice_chunk payload max_payload mid n i = Inr chunk"
  shows "(take 4 chunk = replicate 4 0) = (n = 1)"
proof (cases "n = 1")
  case True
  with assms show ?thesis by (auto simp: slice_chunk_def)
next
  case False
  with assms obtain ib nb where
    ib: "to_bytes 2 (int i) = Inr ib" and nb: "to_bytes 2 (int n) = Inr nb" and
    c: "chunk = ib @ nb @ mid @ slice payload (i * max_payload) ((i + 1) * max_payload)"
    by (auto simp: slice_chunk_def split: if_splits sum.splits)
  from nb have n: "n < 65536" "nb = be_bytes 2 n"
    by (auto simp: to_bytes_def split: if_splits)
  from ib have "ib = be_bytes 2 i" by (auto simp: to_bytes_def split: if_splits)
  then obtain a b where iab: "ib = [a, b]" by (simp add: be_bytes_2)
  have "n div 256 mod 256 \<noteq> 0 \<or> n mod 256 \<noteq> 0" using assms(1) n(1) by auto
  then have nz: "(of_nat (n div 256 mod 256) :: byte) \<noteq> 0 \<or> (of_nat (n mod 256) :: byte) \<noteq> 0"
    by (auto simp: byte_of_nat_0)
  have "take 4 chunk = [a, b, of_nat (n div 256 mod 256), of_nat (n mod 256)]"
    using c iab n(2) by (simp add: be_bytes_2)
  with nz False show ?thesis by (simp add: replicate_4)
qed

theorem multi_chunk_never_sentinel_witness:
  "slice_chunk [255, 10, 11, 12, 13] 2 [1, 2, 3, 4] 3 0 = Inr [0, 0, 0, 3, 1, 2, 3, 4, 255, 10] \<and>
   take 4 [0, 0, 0, 3, 1, 2, 3, 4, 255, 10 :: byte] \<noteq> replicate 4 0"
proof -
  have c: "slice_chunk [255, 10, 11, 12, 13] 2 [1, 2, 3, 4] 3 0 = Inr [0, 0, 0, 3, 1, 2, 3, 4, 255, 10]"
    by (simp add: slice_chunk_def to_bytes_def be_bytes_2 slice_def)
  have "(0::nat) < 3" by simp
  from multi_chunk_never_sentinel [OF this c] c show ?thesis by simp
qed

section \<open>Chunking and reassembly\<close>




















end
